theory Spec2Isabelle
  imports Main "HOL-Library.Sublist"
begin

section \<open>Host objects\<close>

text \<open>
  The detector of \<^verbatim>\<open>packages/core/onClickOutside/index.ts\<close> is glue code over the DOM
  and the reactivity framework. DOM nodes, windows, target references and handler functions
  are opaque to it, so each is a number here. Pointer coordinates are JavaScript numbers;
  they are integers here (whole CSS pixels, which a double represents exactly).
\<close>

type_synonym elem = nat
type_synonym win = nat
type_synonym tref = nat
type_synonym handler = nat

datatype evtype = Click | Pointerdown | Pointermove | Blur

record event =
  ev_type :: evtype
  ev_target :: "elem option"
  composedPath :: "elem list"
  ev_detail :: int
  ev_x :: int
  ev_y :: int

text \<open>
  What the callbacks read from their surroundings when they run: \<^verbatim>\<open>unrefElement\<close> (imported
  from \<^verbatim>\<open>../unrefElement\<close>) and the document of the window the detector was installed on.
  A snapshot is passed with every event, since the page may change between two events.
\<close>

record host =
  unrefElement :: "tref \<Rightarrow> elem option"
  querySelectorAll :: "string \<Rightarrow> elem list"
  activeElement :: "elem option"
  tagName :: "elem \<Rightarrow> string"
  contains :: "elem \<Rightarrow> elem \<Rightarrow> bool"
  body_children :: "elem list"
  documentElement :: elem

text \<open>The constants imported from \<^verbatim>\<open>@vueuse/shared\<close> and \<^verbatim>\<open>../_configurable\<close>.\<close>

record platform =
  isIOS :: bool
  defaultWindow :: "win option"

section \<open>Options\<close>

datatype ignore_entry = Selector string | Handle tref

text \<open>\<^verbatim>\<open>ignoreDragging?: boolean | { distance?: number }\<close>\<close>

datatype ignore_dragging = DragFlag bool | DragOptions "int option"

text \<open>A field that is \<open>None\<close> is \<^verbatim>\<open>undefined\<close> in the options object.\<close>

record options =
  opt_window :: "win option"
  opt_ignore :: "ignore_entry list option"
  opt_ignoreDragging :: "ignore_dragging option"
  opt_capture :: "bool option"
  opt_detectIframe :: "bool option"

text \<open>JavaScript truthiness of the \<^verbatim>\<open>ignoreDragging\<close> value: every object is truthy.\<close>

fun truthy :: "ignore_dragging \<Rightarrow> bool" where
  "truthy (DragFlag b) = b"
| "truthy (DragOptions d) = True"

section \<open>Listener registrations and detector state\<close>

datatype evtarget = OnWindow win | OnElement elem

text \<open>
  The callbacks the module registers. The number is the detector instance whose variables
  the closure captured; the drag listener also captured the origin \<^verbatim>\<open>{ x, y }\<close>.
\<close>

datatype callback =
    Noop
  | ClickListener nat
  | PointerdownListener nat
  | BlurListener nat
  | DragListener nat int int

record registration =
  reg_id :: nat
  reg_on :: evtarget
  reg_type :: evtype
  reg_cb :: callback
  reg_capture :: bool
  reg_passive :: bool

text \<open>
  The variables one call of \<^verbatim>\<open>onClickOutside\<close> closes over. \<open>stopDragListener\<close> is
  \<^verbatim>\<open>undefined\<close> (\<open>None\<close>) or the stop function of the registration with that id.
\<close>

record closure =
  c_window :: win
  c_target :: tref
  c_handler :: handler
  c_ignore :: "ignore_entry list"
  c_ignoreDragging :: ignore_dragging
  shouldListen :: bool
  stopDragListener :: "nat option"

text \<open>
  The process: the module-level flag \<^verbatim>\<open>_iOSWorkaround\<close>, the listeners the host holds, the
  detector instances created so far, the handler invocations made so far (the handler is
  the caller's code; only the fact that it was called, and with which event, is recorded)
  and the callbacks scheduled by \<^verbatim>\<open>setTimeout\<close> and not yet run.
\<close>

record world =
  iOSWorkaround :: bool
  registry :: "registration list"
  next_id :: nat
  closures :: "closure list"
  calls :: "(handler \<times> event) list"
  timers :: "(nat \<times> event) list"

definition fresh_process :: world where
  "fresh_process =
     \<lparr>iOSWorkaround = False, registry = [], next_id = 0, closures = [], calls = [], timers = []\<rparr>"

section \<open>Adding and removing listeners\<close>

text \<open>
  Modelled from the spec: \<^verbatim>\<open>useEventListener\<close> (imported from \<^verbatim>\<open>../useEventListener\<close>, not
  among the sources) is the "add/remove event listener with options {passive, capture}"
  capability: it registers the callback at once and returns a function that removes that
  registration, and only that one. The returned function is represented by the
  registration's id.
\<close>

definition useEventListener ::
  "win \<Rightarrow> evtype \<Rightarrow> callback \<Rightarrow> bool \<Rightarrow> bool \<Rightarrow> world \<Rightarrow> nat \<times> world" where
  "useEventListener w ty cb cap pas s =
     (next_id s,
      s\<lparr>registry := registry s @
           [\<lparr>reg_id = next_id s, reg_on = OnWindow w, reg_type = ty, reg_cb = cb,
             reg_capture = cap, reg_passive = pas\<rparr>],
        next_id := Suc (next_id s)\<rparr>)"

definition stopListener :: "nat \<Rightarrow> world \<Rightarrow> world" where
  "stopListener k s = s\<lparr>registry := filter (\<lambda>r. reg_id r \<noteq> k) (registry s)\<rparr>"

text \<open>\<^verbatim>\<open>el.addEventListener('click', noop)\<close>: a registration nobody holds a stop function for.\<close>

definition addEventListener :: "elem \<Rightarrow> evtype \<Rightarrow> callback \<Rightarrow> world \<Rightarrow> world" where
  "addEventListener el ty cb s =
     s\<lparr>registry := registry s @
          [\<lparr>reg_id = next_id s, reg_on = OnElement el, reg_type = ty, reg_cb = cb,
            reg_capture = False, reg_passive = False\<rparr>],
       next_id := Suc (next_id s)\<rparr>"

section \<open>The callbacks of one detector\<close>

definition set_shouldListen :: "nat \<Rightarrow> bool \<Rightarrow> world \<Rightarrow> world" where
  "set_shouldListen i b s =
     s\<lparr>closures := (closures s)[i := (closures s ! i)\<lparr>shouldListen := b\<rparr>]\<rparr>"

text \<open>\<^verbatim>\<open>stopDragListener?.()\<close>\<close>

definition call_stopDragListener :: "nat \<Rightarrow> world \<Rightarrow> world" where
  "call_stopDragListener i s =
     (case stopDragListener (closures s ! i) of
        None \<Rightarrow> s
      | Some k \<Rightarrow> stopListener k s)"

text \<open>\<^verbatim>\<open>handler(event)\<close>\<close>

definition call_handler :: "nat \<Rightarrow> event \<Rightarrow> world \<Rightarrow> world" where
  "call_handler i ev s = s\<lparr>calls := calls s @ [(c_handler (closures s ! i), ev)]\<rparr>"

text \<open>The callback \<^verbatim>\<open>startDragListener\<close> registers for \<^verbatim>\<open>pointermove\<close>.\<close>

definition dragMove :: "nat \<Rightarrow> int \<Rightarrow> int \<Rightarrow> event \<Rightarrow> world \<Rightarrow> world" where
  "dragMove i x y e s =
     (let dX = \<bar>x - ev_x e\<bar>;
          dY = \<bar>y - ev_y e\<bar>
      in if dX + dY > 4
         then call_stopDragListener i (set_shouldListen i False s)
         else s)"

definition startDragListener :: "nat \<Rightarrow> event \<Rightarrow> world \<Rightarrow> world" where
  "startDragListener i e s =
     (let (k, s') = useEventListener (c_window (closures s ! i)) Pointermove
                      (DragListener i (ev_x e) (ev_y e)) False False s
      in s'\<lparr>closures := (closures s')[i := (closures s' ! i)\<lparr>stopDragListener := Some k\<rparr>]\<rparr>)"

definition shouldIgnore :: "host \<Rightarrow> ignore_entry list \<Rightarrow> event \<Rightarrow> bool" where
  "shouldIgnore h ignore event =
     list_ex (\<lambda>target.
        case target of
          Selector q \<Rightarrow>
            list_ex (\<lambda>el. Some el = ev_target event \<or> el \<in> set (composedPath event))
              (querySelectorAll h q)
        | Handle r \<Rightarrow>
            (case unrefElement h r of
               None \<Rightarrow> False
             | Some el \<Rightarrow> ev_target event = Some el \<or> el \<in> set (composedPath event)))
       ignore"

text \<open>The callback registered for \<^verbatim>\<open>click\<close>.\<close>

definition listener :: "host \<Rightarrow> nat \<Rightarrow> event \<Rightarrow> world \<Rightarrow> world" where
  "listener h i event s =
     (let s1 = call_stopDragListener i s
      in case unrefElement h (c_target (closures s1 ! i)) of
           None \<Rightarrow> s1
         | Some el \<Rightarrow>
             if Some el = ev_target event \<or> el \<in> set (composedPath event) then s1
             else
               let s2 = (if ev_detail event = 0
                         then set_shouldListen i
                                (\<not> shouldIgnore h (c_ignore (closures s1 ! i)) event) s1
                         else s1)
               in if \<not> shouldListen (closures s2 ! i)
                  then set_shouldListen i True s2
                  else call_handler i event s2)"

text \<open>The callback registered for \<^verbatim>\<open>pointerdown\<close>.\<close>

definition pointerdown :: "host \<Rightarrow> nat \<Rightarrow> event \<Rightarrow> world \<Rightarrow> world" where
  "pointerdown h i e s =
     (let c = closures s ! i;
          b = (\<not> shouldIgnore h (c_ignore c) e \<and>
               (case unrefElement h (c_target c) of
                  None \<Rightarrow> False
                | Some el \<Rightarrow> el \<notin> set (composedPath e)));
          s1 = set_shouldListen i b s
      in if shouldListen (closures s1 ! i) \<and> truthy (c_ignoreDragging c)
         then startDragListener i e s1
         else s1)"

text \<open>The \<^verbatim>\<open>blur\<close> callback only schedules; the scheduled function does the check.\<close>

definition blur :: "nat \<Rightarrow> event \<Rightarrow> world \<Rightarrow> world" where
  "blur i event s = s\<lparr>timers := timers s @ [(i, event)]\<rparr>"

text \<open>\<^verbatim>\<open>window.document.activeElement?.tagName === 'IFRAME'\<close>\<close>

definition is_iframe :: "host \<Rightarrow> bool" where
  "is_iframe h =
     (case activeElement h of None \<Rightarrow> False | Some a \<Rightarrow> tagName h a = ''IFRAME'')"

text \<open>
  \<^verbatim>\<open>el?.contains(window.document.activeElement)\<close>, as the truth value the negation in
  the source sees: \<^verbatim>\<open>undefined\<close>, when \<open>el\<close> is missing, counts as false.
\<close>

definition el_contains_active :: "host \<Rightarrow> elem option \<Rightarrow> bool" where
  "el_contains_active h el =
     (case el of
        None \<Rightarrow> False
      | Some e \<Rightarrow> (case activeElement h of None \<Rightarrow> False | Some a \<Rightarrow> contains h e a))"

text \<open>The function that the \<^verbatim>\<open>blur\<close> callback passes to \<^verbatim>\<open>setTimeout\<close>.\<close>

definition blurTimeout :: "host \<Rightarrow> nat \<Rightarrow> event \<Rightarrow> world \<Rightarrow> world" where
  "blurTimeout h i event s =
     (let el = unrefElement h (c_target (closures s ! i))
      in if is_iframe h \<and> \<not> el_contains_active h el
         then call_handler i event s
         else s)"

section \<open>Installing and stopping\<close>

text \<open>
  The function returned: \<^verbatim>\<open>noop\<close>, or \<^verbatim>\<open>stop\<close> with the \<^verbatim>\<open>cleanup\<close> array it closes over
  (the stop functions of the registrations made at installation).
\<close>

datatype stopfn = NoopFn | StopFn "nat list"

text \<open>\<^verbatim>\<open>window = defaultWindow\<close> in the destructuring of the options.\<close>

definition resolve_window :: "platform \<Rightarrow> options \<Rightarrow> win option" where
  "resolve_window p opts =
     (case opt_window opts of None \<Rightarrow> defaultWindow p | Some w \<Rightarrow> Some w)"

definition onClickOutside ::
  "platform \<Rightarrow> host \<Rightarrow> tref \<Rightarrow> handler \<Rightarrow> options \<Rightarrow> world \<Rightarrow> stopfn \<times> world" where
  "onClickOutside p h target handler opts s =
     (let window = resolve_window p opts;
          ignore = (case opt_ignore opts of None \<Rightarrow> [] | Some l \<Rightarrow> l);
          ignoreDragging =
            (case opt_ignoreDragging opts of None \<Rightarrow> DragFlag False | Some d \<Rightarrow> d);
          capture = (case opt_capture opts of None \<Rightarrow> True | Some b \<Rightarrow> b);
          detectIframe = (case opt_detectIframe opts of None \<Rightarrow> False | Some b \<Rightarrow> b)
      in case window of
           None \<Rightarrow> (NoopFn, s)
         | Some w \<Rightarrow>
             let s1 = (if isIOS p \<and> \<not> iOSWorkaround s
                       then addEventListener (documentElement h) Click Noop
                              (fold (\<lambda>el. addEventListener el Click Noop) (body_children h)
                                 (s\<lparr>iOSWorkaround := True\<rparr>))
                       else s);
                 i = length (closures s1);
                 s2 = s1\<lparr>closures := closures s1 @
                          [\<lparr>c_window = w, c_target = target, c_handler = handler,
                            c_ignore = ignore, c_ignoreDragging = ignoreDragging,
                            shouldListen = True, stopDragListener = None\<rparr>]\<rparr>;
                 (k1, s3) = useEventListener w Click (ClickListener i) capture True s2;
                 (k2, s4) = useEventListener w Pointerdown (PointerdownListener i) False True s3
             in if detectIframe
                then let (k3, s5) = useEventListener w Blur (BlurListener i) False False s4
                     in (StopFn [k1, k2, k3], s5)
                else (StopFn [k1, k2], s4))"

text \<open>\<^verbatim>\<open>const stop = () => cleanup.forEach(fn => fn())\<close>, and \<^verbatim>\<open>noop\<close>.\<close>

fun call_stop :: "stopfn \<Rightarrow> world \<Rightarrow> world" where
  "call_stop NoopFn s = s"
| "call_stop (StopFn cleanup) s = fold stopListener cleanup s"

section \<open>The host's event loop\<close>

text \<open>
  A registration whose detector does not exist does nothing; no such registration is ever
  made, the test only keeps list indexing in range.
\<close>

definition runCallback :: "host \<Rightarrow> callback \<Rightarrow> event \<Rightarrow> world \<Rightarrow> world" where
  "runCallback h cb ev s =
     (case cb of
        Noop \<Rightarrow> s
      | ClickListener i \<Rightarrow> if i < length (closures s) then listener h i ev s else s
      | PointerdownListener i \<Rightarrow> if i < length (closures s) then pointerdown h i ev s else s
      | BlurListener i \<Rightarrow> if i < length (closures s) then blur i ev s else s
      | DragListener i x y \<Rightarrow> if i < length (closures s) then dragMove i x y ev s else s)"

text \<open>
  An event that reaches window \<open>w\<close> runs the listeners registered there for its type, in
  the order of registration; one that an earlier listener removed meanwhile is skipped.
\<close>

definition dispatchEvent :: "host \<Rightarrow> win \<Rightarrow> event \<Rightarrow> world \<Rightarrow> world" where
  "dispatchEvent h w ev s =
     fold (\<lambda>r s'. if reg_id r \<in> set (map reg_id (registry s'))
                  then runCallback h (reg_cb r) ev s' else s')
       (filter (\<lambda>r. reg_on r = OnWindow w \<and> reg_type r = ev_type ev) (registry s)) s"

text \<open>The oldest scheduled callback runs.\<close>

definition runTimer :: "host \<Rightarrow> world \<Rightarrow> world" where
  "runTimer h s =
     (case timers s of
        [] \<Rightarrow> s
      | (i, ev) # rest \<Rightarrow>
          if i < length (closures s) then blurTimeout h i ev (s\<lparr>timers := rest\<rparr>)
          else s\<lparr>timers := rest\<rparr>)"

datatype action =
    Install host tref handler options
  | Dispatch host win event
  | Timeout host
  | CallStop stopfn

fun step :: "platform \<Rightarrow> action \<Rightarrow> world \<Rightarrow> world" where
  "step p (Install h t f opts) s = snd (onClickOutside p h t f opts s)"
| "step p (Dispatch h w ev) s = dispatchEvent h w ev s"
| "step p (Timeout h) s = runTimer h s"
| "step p (CallStop f) s = call_stop f s"

definition run :: "platform \<Rightarrow> action list \<Rightarrow> world \<Rightarrow> world" where
  "run p as s = fold (step p) as s"

section \<open>Notions used in the statements\<close>

text \<open>The handler functions of the detectors that exist.\<close>

definition handlers :: "world \<Rightarrow> handler list" where
  "handlers s = map c_handler (closures s)"

text \<open>The registrations of \<^verbatim>\<open>noop\<close>: only the iOS workaround makes them.\<close>

definition noops :: "world \<Rightarrow> registration list" where
  "noops s = filter (\<lambda>r. reg_cb r = Noop) (registry s)"

text \<open>
  What neither a callback, nor a scheduled function, nor a stop function changes: the flag
  and the handlers stay, the \<^verbatim>\<open>noop\<close> registrations afterwards are among those before, in
  the same order, and the only handlers called are those of existing detectors.
\<close>

definition frame :: "world \<Rightarrow> world \<Rightarrow> bool" where
  "frame s s' \<longleftrightarrow>
     iOSWorkaround s' = iOSWorkaround s \<and>
     handlers s' = handlers s \<and>
     subseq (noops s') (noops s) \<and>
     (\<exists>ext. calls s' = calls s @ ext \<and> (\<forall>c \<in> set ext. fst c \<in> set (handlers s)))"

fun installs_handler :: "handler \<Rightarrow> action \<Rightarrow> bool" where
  "installs_handler f (Install h t g opts) = (g = f)"
| "installs_handler f (Dispatch h w ev) = False"
| "installs_handler f (Timeout h) = False"
| "installs_handler f (CallStop k) = False"


section \<open>Concrete pages and events\<close>

definition browser :: platform where
  "browser = \<lparr>isIOS = False, defaultWindow = Some 0\<rparr>"

definition iphone :: platform where
  "iphone = \<lparr>isIOS = True, defaultWindow = Some 0\<rparr>"

definition server :: platform where
  "server = \<lparr>isIOS = False, defaultWindow = None\<rparr>"

text \<open>
  A page: the root element 0, the body 10 and its children: the watched panel 1 (what
  reference 0 resolves to), a button 2 and an iframe 3 (what reference 5 resolves to).
\<close>

definition page :: host where
  "page = \<lparr>unrefElement = (\<lambda>r. if r = 0 then Some 1 else if r = 5 then Some 3 else None),
           querySelectorAll = (\<lambda>q. if q = ''iframe'' then [3] else []),
           activeElement = None,
           tagName = (\<lambda>e. if e = 3 then ''IFRAME'' else ''DIV''),
           contains = (\<lambda>a b. a = b \<or> a = 0 \<or> a = 10),
           body_children = [1, 2, 3],
           documentElement = 0\<rparr>"

text \<open>The same page once the focus has moved into the iframe.\<close>

definition page_iframe_focused :: host where
  "page_iframe_focused = page\<lparr>activeElement := Some 3\<rparr>"

text \<open>The focus in the iframe, and the watched reference resolving to the body around it.\<close>

definition page_iframe_inside :: host where
  "page_iframe_inside = page\<lparr>unrefElement := (\<lambda>r. Some 10), activeElement := Some 3\<rparr>"

text \<open>The focus in the iframe while the watched element is not mounted.\<close>

definition page_unmounted :: host where
  "page_unmounted = page\<lparr>unrefElement := (\<lambda>r. None), activeElement := Some 3\<rparr>"

definition no_options :: options where
  "no_options = \<lparr>opt_window = None, opt_ignore = None, opt_ignoreDragging = None,
                  opt_capture = None, opt_detectIframe = None\<rparr>"

text \<open>
  A pointer event of type \<open>ty\<close> with composed path \<open>path\<close> (its first element is the
  event's target), \<^verbatim>\<open>detail\<close> \<open>d\<close> and position \<open>(px, py)\<close>.
\<close>

definition pointer :: "evtype \<Rightarrow> elem list \<Rightarrow> int \<Rightarrow> int \<Rightarrow> int \<Rightarrow> event" where
  "pointer ty path d px py =
     \<lparr>ev_type = ty, ev_target = (case path of [] \<Rightarrow> None | t # rest \<Rightarrow> Some t),
      composedPath = path, ev_detail = d, ev_x = px, ev_y = py\<rparr>"

definition blur_event :: event where
  "blur_event = \<lparr>ev_type = Blur, ev_target = None, composedPath = [],
                  ev_detail = 0, ev_x = 0, ev_y = 0\<rparr>"

text \<open>One detector on the panel with default options, and one that also detects iframes.\<close>

definition installed :: world where
  "installed = run browser [Install page 0 7 no_options] fresh_process"

definition installed_iframe :: world where
  "installed_iframe =
     run browser [Install page 0 7 (no_options\<lparr>opt_detectIframe := Some True\<rparr>)] fresh_process"

text \<open>The first detector after the pointer went down on the panel itself.\<close>

definition after_inside_pointerdown :: world where
  "after_inside_pointerdown =
     run browser
       [Install page 0 7 no_options, Dispatch page 0 (pointer Pointerdown [1, 10, 0] 0 40 40)]
       fresh_process"

section \<open>Basic facts\<close>

lemmas model_defs =
  run_def onClickOutside_def resolve_window_def useEventListener_def addEventListener_def
  stopListener_def dispatchEvent_def runCallback_def runTimer_def listener_def
  pointerdown_def blur_def blurTimeout_def dragMove_def startDragListener_def
  shouldIgnore_def set_shouldListen_def call_stopDragListener_def call_handler_def
  is_iframe_def el_contains_active_def fresh_process_def Let_def

lemmas scenario_defs =
  browser_def iphone_def server_def page_def page_iframe_focused_def page_iframe_inside_def
  page_unmounted_def no_options_def pointer_def blur_event_def


lemma installed_iframe_eq:
  "installed_iframe =
     \<lparr>iOSWorkaround = False,
      registry =
        [\<lparr>reg_id = 0, reg_on = OnWindow 0, reg_type = Click, reg_cb = ClickListener 0,
          reg_capture = True, reg_passive = True\<rparr>,
         \<lparr>reg_id = 1, reg_on = OnWindow 0, reg_type = Pointerdown,
          reg_cb = PointerdownListener 0, reg_capture = False, reg_passive = True\<rparr>,
         \<lparr>reg_id = 2, reg_on = OnWindow 0, reg_type = Blur, reg_cb = BlurListener 0,
          reg_capture = False, reg_passive = False\<rparr>],
      next_id = 3,
      closures =
        [\<lparr>c_window = 0, c_target = 0, c_handler = 7, c_ignore = [],
          c_ignoreDragging = DragFlag False, shouldListen = True, stopDragListener = None\<rparr>],
      calls = [], timers = []\<rparr>"
  by (simp add: installed_iframe_def model_defs scenario_defs)

lemma after_inside_pointerdown_eq:
  "after_inside_pointerdown =
     \<lparr>iOSWorkaround = False,
      registry =
        [\<lparr>reg_id = 0, reg_on = OnWindow 0, reg_type = Click, reg_cb = ClickListener 0,
          reg_capture = True, reg_passive = True\<rparr>,
         \<lparr>reg_id = 1, reg_on = OnWindow 0, reg_type = Pointerdown,
          reg_cb = PointerdownListener 0, reg_capture = False, reg_passive = True\<rparr>],
      next_id = 2,
      closures =
        [\<lparr>c_window = 0, c_target = 0, c_handler = 7, c_ignore = [],
          c_ignoreDragging = DragFlag False, shouldListen = False, stopDragListener = None\<rparr>],
      calls = [], timers = []\<rparr>"
  by (simp add: after_inside_pointerdown_def model_defs scenario_defs)

subsection \<open>What the helpers leave alone\<close>

lemma closures_stopListener [simp]: "closures (stopListener k s) = closures s"
  and calls_stopListener [simp]: "calls (stopListener k s) = calls s"
  and timers_stopListener [simp]: "timers (stopListener k s) = timers s"
  by (simp_all add: stopListener_def)

lemma closures_call_stopDragListener [simp]:
  "closures (call_stopDragListener i s) = closures s"
  and calls_call_stopDragListener [simp]: "calls (call_stopDragListener i s) = calls s"
  and timers_call_stopDragListener [simp]: "timers (call_stopDragListener i s) = timers s"
  by (simp_all add: call_stopDragListener_def split: option.split)

lemma calls_set_shouldListen [simp]: "calls (set_shouldListen i b s) = calls s"
  and registry_set_shouldListen [simp]: "registry (set_shouldListen i b s) = registry s"
  and timers_set_shouldListen [simp]: "timers (set_shouldListen i b s) = timers s"
  and length_set_shouldListen [simp]:
    "length (closures (set_shouldListen i b s)) = length (closures s)"
  by (simp_all add: set_shouldListen_def)

lemma nth_set_shouldListen [simp]:
  "i < length (closures s) \<Longrightarrow>
   closures (set_shouldListen i b s) ! i = (closures s ! i)\<lparr>shouldListen := b\<rparr>"
  by (simp add: set_shouldListen_def)

lemma calls_call_handler [simp]:
  "calls (call_handler i ev s) = calls s @ [(c_handler (closures s ! i), ev)]"
  and closures_call_handler [simp]: "closures (call_handler i ev s) = closures s"
  and registry_call_handler [simp]: "registry (call_handler i ev s) = registry s"
  by (simp_all add: call_handler_def)

lemma fold_addEventListener_fields [simp]:
  "closures (fold (\<lambda>el. addEventListener el ty cb) els s) = closures s"
  "calls (fold (\<lambda>el. addEventListener el ty cb) els s) = calls s"
  "timers (fold (\<lambda>el. addEventListener el ty cb) els s) = timers s"
  "iOSWorkaround (fold (\<lambda>el. addEventListener el ty cb) els s) = iOSWorkaround s"
  by (induction els arbitrary: s) (simp_all add: addEventListener_def)

subsection \<open>The callbacks, one by one\<close>

lemma listener_calls:
  assumes "i < length (closures s)"
  shows "calls (listener h i ev s) =
     calls s @
       (case unrefElement h (c_target (closures s ! i)) of
          None \<Rightarrow> []
        | Some el \<Rightarrow>
            if Some el = ev_target ev \<or> el \<in> set (composedPath ev) then []
            else if (if ev_detail ev = 0 then \<not> shouldIgnore h (c_ignore (closures s ! i)) ev
                     else shouldListen (closures s ! i))
                 then [(c_handler (closures s ! i), ev)] else [])"
  using assms by (simp add: listener_def Let_def split: option.split)

lemma listener_shouldListen:
  assumes "i < length (closures s)"
    and "unrefElement h (c_target (closures s ! i)) = Some el"
    and "Some el \<noteq> ev_target ev" and "el \<notin> set (composedPath ev)"
  shows "shouldListen (closures (listener h i ev s) ! i)"
  using assms by (simp add: listener_def Let_def)



lemma blurTimeout_calls:
  "calls (blurTimeout h i ev s) =
     calls s @
       (if is_iframe h \<and>
           \<not> el_contains_active h (unrefElement h (c_target (closures s ! i)))
        then [(c_handler (closures s ! i), ev)] else [])"
  by (simp add: blurTimeout_def Let_def)

lemma iframe_outside_iff:
  "is_iframe h \<and> \<not> el_contains_active h el \<longleftrightarrow>
   (\<exists>a. activeElement h = Some a \<and> tagName h a = ''IFRAME'' \<and>
        \<not> (\<exists>e. el = Some e \<and> contains h e a))"
  by (auto simp: is_iframe_def el_contains_active_def split: option.splits)

text \<open>When one listener is registered for the event, dispatching runs just its callback.\<close>

lemma dispatch_single:
  assumes "filter (\<lambda>r. reg_on r = OnWindow w \<and> reg_type r = ev_type ev) (registry s) = [r]"
  shows "dispatchEvent h w ev s = runCallback h (reg_cb r) ev s"
proof -
  have "r \<in> set (filter (\<lambda>r. reg_on r = OnWindow w \<and> reg_type r = ev_type ev) (registry s))"
    using assms by simp
  then have "reg_id r \<in> set (map reg_id (registry s))" by auto
  with assms show ?thesis by (simp add: dispatchEvent_def)
qed

subsection \<open>What no callback changes\<close>

lemma frame_refl: "frame s s"
  by (simp add: frame_def)

lemma frame_trans: "frame s s' \<Longrightarrow> frame s' s'' \<Longrightarrow> frame s s''"
proof -
  assume a: "frame s s'" and b: "frame s' s''"
  from a obtain ext where a1: "iOSWorkaround s' = iOSWorkaround s"
    and a2: "handlers s' = handlers s" and a3: "subseq (noops s') (noops s)"
    and a4: "calls s' = calls s @ ext" and a5: "\<forall>c \<in> set ext. fst c \<in> set (handlers s)"
    unfolding frame_def by blast
  from b obtain ext' where b1: "iOSWorkaround s'' = iOSWorkaround s'"
    and b2: "handlers s'' = handlers s'" and b3: "subseq (noops s'') (noops s')"
    and b4: "calls s'' = calls s' @ ext'" and b5: "\<forall>c \<in> set ext'. fst c \<in> set (handlers s')"
    unfolding frame_def by blast
  have c3: "subseq (noops s'') (noops s)" using b3 a3 by (rule subseq_order.trans)
  have c4: "calls s'' = calls s @ (ext @ ext')" using a4 b4 by simp
  have c5: "\<forall>c \<in> set (ext @ ext'). fst c \<in> set (handlers s)" using a5 b5 a2 by auto
  have c: "\<exists>e. calls s'' = calls s @ e \<and> (\<forall>c \<in> set e. fst c \<in> set (handlers s))"
    using c4 c5 by blast
  show ?thesis unfolding frame_def using a1 b1 a2 b2 c3 c by simp
qed

lemma handlers_update:
  "i < length cs \<Longrightarrow> c_handler c = c_handler (cs ! i) \<Longrightarrow>
   map c_handler (cs[i := c]) = map c_handler cs"
  by (simp add: map_update list_update_same_conv)

lemma noops_stopListener:
  "noops (stopListener k s) = filter (\<lambda>r. reg_id r \<noteq> k) (noops s)"
  by (simp add: noops_def stopListener_def conj_commute)

lemma frame_stopListener: "frame s (stopListener k s)"
  by (simp add: frame_def noops_stopListener) (simp add: stopListener_def handlers_def)

lemma frame_set_shouldListen: "i < length (closures s) \<Longrightarrow> frame s (set_shouldListen i b s)"
  by (simp add: frame_def set_shouldListen_def handlers_def handlers_update noops_def)

lemma frame_call_stopDragListener: "frame s (call_stopDragListener i s)"
  by (simp add: call_stopDragListener_def frame_refl frame_stopListener split: option.split)

lemma frame_call_handler: "i < length (closures s) \<Longrightarrow> frame s (call_handler i ev s)"
  by (simp add: frame_def call_handler_def handlers_def noops_def)

lemma frame_startDragListener:
  "i < length (closures s) \<Longrightarrow> frame s (startDragListener i e s)"
  by (simp add: frame_def startDragListener_def useEventListener_def handlers_def
      handlers_update noops_def)

lemma frame_dragMove: "i < length (closures s) \<Longrightarrow> frame s (dragMove i x y e s)"
  unfolding dragMove_def Let_def
  by (auto intro: frame_refl frame_trans [OF frame_set_shouldListen frame_call_stopDragListener])

lemma frame_listener: "i < length (closures s) \<Longrightarrow> frame s (listener h i ev s)"
  unfolding listener_def Let_def
  by (auto split: option.split
      intro!: frame_call_stopDragListener
        frame_trans [OF frame_call_stopDragListener frame_set_shouldListen]
        frame_trans [OF frame_call_stopDragListener frame_call_handler]
        frame_trans [OF frame_call_stopDragListener
          frame_trans [OF frame_set_shouldListen frame_set_shouldListen]]
        frame_trans [OF frame_call_stopDragListener
          frame_trans [OF frame_set_shouldListen frame_call_handler]])

lemma frame_pointerdown: "i < length (closures s) \<Longrightarrow> frame s (pointerdown h i e s)"
  unfolding pointerdown_def Let_def
  by (auto intro!: frame_set_shouldListen
        frame_trans [OF frame_set_shouldListen frame_startDragListener])

lemma frame_blur: "frame s (blur i ev s)"
  by (simp add: frame_def blur_def handlers_def noops_def)

lemma frame_blurTimeout: "i < length (closures s) \<Longrightarrow> frame s (blurTimeout h i ev s)"
  by (simp add: blurTimeout_def Let_def frame_refl frame_call_handler)

lemma frame_runCallback: "frame s (runCallback h cb ev s)"
  by (simp add: runCallback_def frame_refl frame_listener frame_pointerdown frame_blur
      frame_dragMove split: callback.split)

lemma frame_fold_callbacks:
  "frame s (fold (\<lambda>r s'. if reg_id r \<in> set (map reg_id (registry s'))
                          then runCallback h (reg_cb r) ev s' else s') rs s)"
proof (induction rs arbitrary: s)
  case Nil
  show ?case by (simp add: frame_refl)
next
  case (Cons r rs)
  show ?case
    using frame_trans [OF _ Cons.IH] frame_runCallback frame_refl by simp
qed

lemma frame_dispatchEvent: "frame s (dispatchEvent h w ev s)"
  unfolding dispatchEvent_def by (rule frame_fold_callbacks)

lemma frame_runTimer: "frame s (runTimer h s)"
proof (cases "timers s")
  case Nil
  then show ?thesis by (simp add: runTimer_def frame_refl)
next
  case (Cons t rest)
  obtain i ev where t: "t = (i, ev)" by (cases t)
  have a: "frame s (s\<lparr>timers := rest\<rparr>)" by (simp add: frame_def handlers_def noops_def)
  show ?thesis
  proof (cases "i < length (closures s)")
    case True
    then have "frame (s\<lparr>timers := rest\<rparr>) (blurTimeout h i ev (s\<lparr>timers := rest\<rparr>))"
      by (simp add: frame_blurTimeout)
    with a True Cons t show ?thesis by (simp add: runTimer_def frame_trans)
  next
    case False
    with a Cons t show ?thesis by (simp add: runTimer_def)
  qed
qed

lemma frame_fold_stopListener: "frame s (fold stopListener ks s)"
proof (induction ks arbitrary: s)
  case Nil
  show ?case by (simp add: frame_refl)
next
  case (Cons k ks)
  show ?case using frame_trans [OF frame_stopListener Cons.IH] by simp
qed

lemma frame_call_stop: "frame s (call_stop f s)"
  by (cases f) (simp_all add: frame_refl frame_fold_stopListener)

lemma frame_step:
  "\<not> (\<exists>h t g opts. a = Install h t g opts) \<Longrightarrow> frame s (step p a s)"
  by (cases a) (simp_all add: frame_dispatchEvent frame_runTimer frame_call_stop)

lemma frame_quiet:
  assumes "frame s s'" and "f \<notin> set (handlers s)"
  shows "f \<notin> set (handlers s') \<and>
         filter (\<lambda>c. fst c = f) (calls s') = filter (\<lambda>c. fst c = f) (calls s)"
proof -
  from assms(1) obtain ext where h: "handlers s' = handlers s"
    and c: "calls s' = calls s @ ext" and e: "\<forall>c \<in> set ext. fst c \<in> set (handlers s)"
    unfolding frame_def by blast
  have "filter (\<lambda>c. fst c = f) ext = []"
    using e assms(2) by (auto simp: filter_empty_conv)
  then show ?thesis using h c assms(2) by simp
qed

subsection \<open>Installation\<close>

lemma onClickOutside_no_window:
  "resolve_window p opts = None \<Longrightarrow> onClickOutside p h t f opts s = (NoopFn, s)"
  by (simp add: onClickOutside_def Let_def)

lemma onClickOutside_calls: "calls (snd (onClickOutside p h t f opts s)) = calls s"
  by (simp add: onClickOutside_def Let_def useEventListener_def addEventListener_def
      split: option.split)

lemma onClickOutside_handlers:
  "handlers (snd (onClickOutside p h t f opts s)) =
     handlers s @ (case resolve_window p opts of None \<Rightarrow> [] | Some w \<Rightarrow> [f])"
  by (simp add: onClickOutside_def Let_def useEventListener_def addEventListener_def
      handlers_def split: option.split)

lemma onClickOutside_flag:
  "iOSWorkaround (snd (onClickOutside p h t f opts s)) \<longleftrightarrow>
     iOSWorkaround s \<or> (isIOS p \<and> resolve_window p opts \<noteq> None)"
  by (auto simp add: onClickOutside_def Let_def useEventListener_def addEventListener_def
      split: option.split)

lemma onClickOutside_noops_kept:
  "iOSWorkaround s \<or> \<not> isIOS p \<Longrightarrow> noops (snd (onClickOutside p h t f opts s)) = noops s"
  by (auto simp add: onClickOutside_def Let_def useEventListener_def noops_def
      split: option.split)

lemma noops_fold_addEventListener:
  "map (\<lambda>r. (reg_on r, reg_type r)) (noops (fold (\<lambda>el. addEventListener el Click Noop) els s)) =
   map (\<lambda>r. (reg_on r, reg_type r)) (noops s) @ map (\<lambda>el. (OnElement el, Click)) els"
  by (induction els arbitrary: s) (simp_all add: addEventListener_def noops_def)

lemma onClickOutside_noops_applied:
  assumes "\<not> iOSWorkaround s" and "isIOS p" and "resolve_window p opts = Some w"
  shows "map (\<lambda>r. (reg_on r, reg_type r)) (noops (snd (onClickOutside p h t f opts s))) =
     map (\<lambda>r. (reg_on r, reg_type r)) (noops s) @
     map (\<lambda>el. (OnElement el, Click)) (body_children h) @
     [(OnElement (documentElement h), Click)]"
proof -
  let ?s0 = "fold (\<lambda>el. addEventListener el Click Noop) (body_children h)
               (s\<lparr>iOSWorkaround := True\<rparr>)"
  have n: "noops (s\<lparr>iOSWorkaround := True\<rparr>) = noops s" by (simp add: noops_def)
  have "noops (snd (onClickOutside p h t f opts s)) =
        noops (addEventListener (documentElement h) Click Noop ?s0)"
    using assms
    by (auto simp add: onClickOutside_def Let_def useEventListener_def noops_def
        split: option.split)
  also have "map (\<lambda>r. (reg_on r, reg_type r)) \<dots> =
      map (\<lambda>r. (reg_on r, reg_type r)) (noops ?s0) @ [(OnElement (documentElement h), Click)]"
    by (simp add: addEventListener_def noops_def)
  finally show ?thesis by (simp add: noops_fold_addEventListener n)
qed

subsection \<open>Sequences of actions\<close>

lemma step_quiet:
  assumes "\<not> installs_handler f a" and "f \<notin> set (handlers s)"
  shows "f \<notin> set (handlers (step p a s)) \<and>
         filter (\<lambda>c. fst c = f) (calls (step p a s)) = filter (\<lambda>c. fst c = f) (calls s)"
proof (cases a)
  case (Install h t g opts)
  with assms show ?thesis
    by (simp add: onClickOutside_calls onClickOutside_handlers split: option.split)
next
  case (Dispatch h w ev)
  then show ?thesis using frame_quiet [OF frame_step [of a s p] assms(2)] by simp
next
  case (Timeout h)
  then show ?thesis using frame_quiet [OF frame_step [of a s p] assms(2)] by simp
next
  case (CallStop k)
  then show ?thesis using frame_quiet [OF frame_step [of a s p] assms(2)] by simp
qed

lemma run_quiet:
  assumes "list_all (\<lambda>a. \<not> installs_handler f a) as" and "f \<notin> set (handlers s)"
  shows "f \<notin> set (handlers (run p as s)) \<and>
         filter (\<lambda>c. fst c = f) (calls (run p as s)) = filter (\<lambda>c. fst c = f) (calls s)"
  using assms
proof (induction as arbitrary: s)
  case Nil
  then show ?case by (simp add: run_def)
next
  case (Cons a as)
  from Cons.prems have a: "\<not> installs_handler f a"
    and r: "list_all (\<lambda>a. \<not> installs_handler f a) as" by simp_all
  from step_quiet [OF a Cons.prems(2), of p]
  have h: "f \<notin> set (handlers (step p a s))"
    and c: "filter (\<lambda>c. fst c = f) (calls (step p a s)) = filter (\<lambda>c. fst c = f) (calls s)"
    by simp_all
  from Cons.IH [OF r h] c show ?case by (simp add: run_def)
qed

lemma step_flag_kept:
  assumes "iOSWorkaround s"
  shows "iOSWorkaround (step p a s) \<and> subseq (noops (step p a s)) (noops s)"
proof (cases a)
  case (Install h t g opts)
  with assms show ?thesis by (simp add: onClickOutside_flag onClickOutside_noops_kept)
next
  case (Dispatch h w ev)
  then show ?thesis using frame_step [of a s p] assms by (simp add: frame_def)
next
  case (Timeout h)
  then show ?thesis using frame_step [of a s p] assms by (simp add: frame_def)
next
  case (CallStop k)
  then show ?thesis using frame_step [of a s p] assms by (simp add: frame_def)
qed

lemma run_flag_kept:
  "iOSWorkaround s \<Longrightarrow>
   iOSWorkaround (run p as s) \<and> subseq (noops (run p as s)) (noops s)"
proof (induction as arbitrary: s)
  case Nil
  then show ?case by (simp add: run_def)
next
  case (Cons a as)
  from step_flag_kept [OF Cons.prems, of p a]
  have f: "iOSWorkaround (step p a s)" and n: "subseq (noops (step p a s)) (noops s)"
    by simp_all
  from Cons.IH [OF f] have "iOSWorkaround (run p (a # as) s)"
    and "subseq (noops (run p (a # as) s)) (noops (step p a s))"
    by (simp_all add: run_def)
  with n show ?case by (blast intro: subseq_order.trans)
qed

section \<open>Clicks\<close>




text \<open>
  C8: a click outside the element of a detector whose target resolves. When its \<^verbatim>\<open>detail\<close>
  is 0, whether the handler is called depends on the ignore check alone, whatever
  \<open>shouldListen\<close> was before. Whenever the flag tested (recomputed or not) is false, the
  handler is not called; and after the click \<open>shouldListen\<close> is true again.
\<close>

theorem synthetic_click_recomputes:
  assumes "i < length (closures s)"
    and "unrefElement h (c_target (closures s ! i)) = Some el"
    and "Some el \<noteq> ev_target ev" and "el \<notin> set (composedPath ev)"
  shows "(ev_detail ev = 0 \<longrightarrow>
            calls (listener h i ev s) =
              calls s @ (if shouldIgnore h (c_ignore (closures s ! i)) ev then []
                         else [(c_handler (closures s ! i), ev)])) \<and>
         (\<not> (if ev_detail ev = 0 then \<not> shouldIgnore h (c_ignore (closures s ! i)) ev
              else shouldListen (closures s ! i)) \<longrightarrow>
            calls (listener h i ev s) = calls s) \<and>
         shouldListen (closures (listener h i ev s) ! i)"
  using assms by (simp add: listener_calls listener_shouldListen)

text \<open>
  C8, witness: \<open>shouldListen\<close> is false after a \<^verbatim>\<open>pointerdown\<close> on the panel. A synthetic
  click on the button still calls the handler; a pointer click on the button does not; both
  leave \<open>shouldListen\<close> true.
\<close>

theorem synthetic_click_recomputes_witness:
  "\<not> shouldListen (closures after_inside_pointerdown ! 0) \<and>
   calls (listener page 0 (pointer Click [2, 10, 0] 0 40 40) after_inside_pointerdown) =
     [(7, pointer Click [2, 10, 0] 0 40 40)] \<and>
   shouldListen (closures (listener page 0 (pointer Click [2, 10, 0] 0 40 40)
                             after_inside_pointerdown) ! 0) \<and>
   calls (listener page 0 (pointer Click [2, 10, 0] 1 40 40) after_inside_pointerdown) = [] \<and>
   shouldListen (closures (listener page 0 (pointer Click [2, 10, 0] 1 40 40)
                             after_inside_pointerdown) ! 0)"
proof -
  have h1: "0 < length (closures after_inside_pointerdown)"
    by (simp add: after_inside_pointerdown_eq)
  have h2: "unrefElement page (c_target (closures after_inside_pointerdown ! 0)) = Some 1"
    by (simp add: after_inside_pointerdown_eq page_def)
  have h3: "Some 1 \<noteq> ev_target (pointer Click [2, 10, 0] d 40 40)" for d
    by (simp add: pointer_def)
  have h4: "1 \<notin> set (composedPath (pointer Click [2, 10, 0] d 40 40))" for d
    by (simp add: pointer_def)
  from synthetic_click_recomputes [OF h1 h2 h3 h4, of 0]
    synthetic_click_recomputes [OF h1 h2 h3 h4, of 1]
  show ?thesis
    by (simp add: after_inside_pointerdown_eq pointer_def shouldIgnore_def)
qed

section \<open>An unresolved target\<close>




section \<open>Focus moving into an iframe\<close>

text \<open>
  C5: a blur event reaches the window where a detector has its blur listener (it has one
  when \<^verbatim>\<open>detectIframe\<close> is set). The listener itself calls nothing. When the deferred
  function then runs, the handler is called with the blur event exactly when the active
  element is an \<^verbatim>\<open>IFRAME\<close> that the resolved watched element does not contain; when the
  watched element contains it, the handler is not called.
\<close>

theorem blur_iframe_outcome:
  assumes "filter (\<lambda>r. reg_on r = OnWindow w \<and> reg_type r = Blur) (registry s) = [r]"
    and "reg_cb r = BlurListener i"
    and "i < length (closures s)"
    and "ev_type ev = Blur"
    and "timers s = []"
  shows "calls (dispatchEvent h w ev s) = calls s \<and>
     calls (runTimer h' (dispatchEvent h w ev s)) =
       calls s @
         (if \<exists>a. activeElement h' = Some a \<and> tagName h' a = ''IFRAME'' \<and>
                 \<not> (\<exists>el. unrefElement h' (c_target (closures s ! i)) = Some el \<and>
                          contains h' el a)
          then [(c_handler (closures s ! i), ev)] else [])"
proof -
  have d: "dispatchEvent h w ev s = blur i ev s"
    using assms(1-4) dispatch_single [of w ev s r h] by (simp add: runCallback_def)
  have t: "runTimer h' (blur i ev s) = blurTimeout h' i ev (s\<lparr>timers := []\<rparr>)"
    using assms(3,5) by (simp add: runTimer_def blur_def)
  have c: "calls (blurTimeout h' i ev (s\<lparr>timers := []\<rparr>)) =
     calls s @
       (if \<exists>a. activeElement h' = Some a \<and> tagName h' a = ''IFRAME'' \<and>
               \<not> (\<exists>el. unrefElement h' (c_target (closures s ! i)) = Some el \<and>
                        contains h' el a)
        then [(c_handler (closures s ! i), ev)] else [])"
    unfolding blurTimeout_calls iframe_outside_iff by auto
  show ?thesis unfolding d t using c by (simp add: blur_def)
qed

text \<open>
  C5, witness: the detector installed with \<^verbatim>\<open>detectIframe: true\<close>. With the focus in the
  iframe beside the panel the handler is called with the blur event; with the watched
  reference resolving to the body, which contains the iframe, it is not.
\<close>

theorem blur_iframe_outcome_witness:
  "filter (\<lambda>r. reg_on r = OnWindow 0 \<and> reg_type r = Blur) (registry installed_iframe) =
     [\<lparr>reg_id = 2, reg_on = OnWindow 0, reg_type = Blur, reg_cb = BlurListener 0,
       reg_capture = False, reg_passive = False\<rparr>] \<and>
   calls (runTimer page_iframe_focused (dispatchEvent page 0 blur_event installed_iframe)) =
     [(7, blur_event)] \<and>
   calls (runTimer page_iframe_inside (dispatchEvent page 0 blur_event installed_iframe)) = []"
proof -
  let ?r = "\<lparr>reg_id = 2, reg_on = OnWindow 0, reg_type = Blur, reg_cb = BlurListener 0,
             reg_capture = False, reg_passive = False\<rparr>"
  have h1: "filter (\<lambda>r. reg_on r = OnWindow 0 \<and> reg_type r = Blur)
              (registry installed_iframe) = [?r]"
    by (simp add: installed_iframe_eq)
  have h2: "reg_cb ?r = BlurListener 0" by simp
  have h3: "0 < length (closures installed_iframe)" by (simp add: installed_iframe_eq)
  have h4: "ev_type blur_event = Blur" by (simp add: blur_event_def)
  have h5: "timers installed_iframe = []" by (simp add: installed_iframe_eq)
  from blur_iframe_outcome [OF h1 h2 h3 h4 h5, of page page_iframe_focused]
    blur_iframe_outcome [OF h1 h2 h3 h4 h5, of page page_iframe_inside] h1
  show ?thesis
    by (simp add: installed_iframe_eq page_iframe_focused_def page_iframe_inside_def page_def)
qed



section \<open>No window\<close>

text \<open>
  C7: when the window option resolves to nothing, \<^verbatim>\<open>onClickOutside\<close> returns \<^verbatim>\<open>noop\<close> and
  leaves the process as it was, so it registers no listener; calling the returned
  function changes nothing; and whatever happens afterwards (events, timers, stop
  functions, other detectors with other handlers), the handler passed in is never called,
  provided no existing detector already had it as its handler.
\<close>

theorem no_window_is_noop:
  assumes "resolve_window p opts = None"
    and "f \<notin> set (handlers s)"
    and "list_all (\<lambda>a. \<not> installs_handler f a) as"
  shows "onClickOutside p h t f opts s = (NoopFn, s) \<and>
         call_stop (fst (onClickOutside p h t f opts s)) s' = s' \<and>
         registry (snd (onClickOutside p h t f opts s)) = registry s \<and>
         filter (\<lambda>c. fst c = f) (calls (run p as (snd (onClickOutside p h t f opts s)))) =
           filter (\<lambda>c. fst c = f) (calls s)"
  using run_quiet [OF assms(3,2), of p] by (simp add: onClickOutside_no_window [OF assms(1)])

text \<open>
  C7, witness: on a server there is no default window; the detector installed there sees a
  click, a blur and a timer, and another detector is installed with another handler.
\<close>

theorem no_window_is_noop_witness:
  "resolve_window server no_options = None \<and>
   onClickOutside server page 0 7 no_options fresh_process = (NoopFn, fresh_process) \<and>
   call_stop (fst (onClickOutside server page 0 7 no_options fresh_process)) installed =
     installed \<and>
   registry (snd (onClickOutside server page 0 7 no_options fresh_process)) = [] \<and>
   filter (\<lambda>c. fst c = 7)
     (calls (run server
        [Dispatch page 0 (pointer Click [2, 10, 0] 1 40 40), Dispatch page 0 blur_event, Timeout page,
         Install page 0 8 (no_options\<lparr>opt_window := Some 0\<rparr>),
         Dispatch page 0 (pointer Click [2, 10, 0] 1 40 40)]
        (snd (onClickOutside server page 0 7 no_options fresh_process)))) = []"
proof -
  have h1: "resolve_window server no_options = None"
    by (simp add: resolve_window_def server_def no_options_def)
  have h2: "7 \<notin> set (handlers fresh_process)"
    by (simp add: handlers_def fresh_process_def)
  have h3: "list_all (\<lambda>a. \<not> installs_handler 7 a)
     [Dispatch page 0 (pointer Click [2, 10, 0] 1 40 40), Dispatch page 0 blur_event, Timeout page,
      Install page 0 8 (no_options\<lparr>opt_window := Some 0\<rparr>),
      Dispatch page 0 (pointer Click [2, 10, 0] 1 40 40)]"
    by simp
  note w = no_window_is_noop [OF h1 h2 h3, of page 0 installed]
  from w have a: "onClickOutside server page 0 7 no_options fresh_process =
      (NoopFn, fresh_process)"
    by blast
  from w have b: "filter (\<lambda>c. fst c = 7)
     (calls (run server
        [Dispatch page 0 (pointer Click [2, 10, 0] 1 40 40), Dispatch page 0 blur_event, Timeout page,
         Install page 0 8 (no_options\<lparr>opt_window := Some 0\<rparr>),
         Dispatch page 0 (pointer Click [2, 10, 0] 1 40 40)]
        (snd (onClickOutside server page 0 7 no_options fresh_process)))) =
     filter (\<lambda>c. fst c = 7) (calls fresh_process)"
    by blast
  have c: "calls fresh_process = []" "registry fresh_process = []"
    by (simp_all add: fresh_process_def)
  show ?thesis unfolding b using a h1 c by simp
qed

section \<open>The iOS workaround\<close>

text \<open>
  C9: on iOS, once a detector has been installed on a window the flag \<^verbatim>\<open>_iOSWorkaround\<close> is
  set. If it was not set before, that installation added the \<^verbatim>\<open>noop\<close> click listeners, one
  on each child of the body and one on the document element; if it was set, it added
  none. From then on, whatever happens (further installations included), the flag stays
  set and no \<^verbatim>\<open>noop\<close> listener is added any more: those registered are a subsequence
  of those registered then.
\<close>

theorem iOS_workaround_once:
  assumes "isIOS p" and "resolve_window p opts = Some w"
  shows "iOSWorkaround (snd (onClickOutside p h t f opts s)) \<and>
         (if iOSWorkaround s
          then noops (snd (onClickOutside p h t f opts s)) = noops s
          else map (\<lambda>r. (reg_on r, reg_type r)) (noops (snd (onClickOutside p h t f opts s))) =
                 map (\<lambda>r. (reg_on r, reg_type r)) (noops s) @
                 map (\<lambda>el. (OnElement el, Click)) (body_children h) @
                 [(OnElement (documentElement h), Click)]) \<and>
         iOSWorkaround (run p as (snd (onClickOutside p h t f opts s))) \<and>
         subseq (noops (run p as (snd (onClickOutside p h t f opts s))))
           (noops (snd (onClickOutside p h t f opts s)))"
proof -
  have f: "iOSWorkaround (snd (onClickOutside p h t f opts s))"
    using assms by (simp add: onClickOutside_flag)
  show ?thesis
    using f run_flag_kept [OF f, of p as] assms
    by (simp add: onClickOutside_noops_kept onClickOutside_noops_applied)
qed

text \<open>
  C9, witness: the first detector on an iPhone puts the \<^verbatim>\<open>noop\<close> listeners on the three
  children of the body and on the root; after a second detector is installed and a click
  is handled, the flag is still set and no \<^verbatim>\<open>noop\<close> listener has been added.
\<close>

theorem iOS_workaround_once_witness:
  "isIOS iphone \<and> resolve_window iphone no_options = Some 0 \<and>
   \<not> iOSWorkaround fresh_process \<and>
   iOSWorkaround (snd (onClickOutside iphone page 0 7 no_options fresh_process)) \<and>
   map (\<lambda>r. (reg_on r, reg_type r))
     (noops (snd (onClickOutside iphone page 0 7 no_options fresh_process))) =
     [(OnElement 1, Click), (OnElement 2, Click), (OnElement 3, Click), (OnElement 0, Click)] \<and>
   iOSWorkaround (run iphone
     [Install page 0 8 no_options, Dispatch page 0 (pointer Click [2, 10, 0] 1 40 40)]
     (snd (onClickOutside iphone page 0 7 no_options fresh_process))) \<and>
   subseq (noops (run iphone
     [Install page 0 8 no_options, Dispatch page 0 (pointer Click [2, 10, 0] 1 40 40)]
     (snd (onClickOutside iphone page 0 7 no_options fresh_process))))
     (noops (snd (onClickOutside iphone page 0 7 no_options fresh_process)))"
proof -
  have h1: "isIOS iphone" by (simp add: iphone_def)
  have h2: "resolve_window iphone no_options = Some 0"
    by (simp add: resolve_window_def iphone_def no_options_def)
  have h3: "\<not> iOSWorkaround fresh_process" "noops fresh_process = []"
    by (simp_all add: fresh_process_def noops_def)
  have h4: "body_children page = [1, 2, 3]" "documentElement page = 0"
    by (simp_all add: page_def)
  from iOS_workaround_once [OF h1 h2, of page 0 7 fresh_process
      "[Install page 0 8 no_options, Dispatch page 0 (pointer Click [2, 10, 0] 1 40 40)]"]
    h1 h2 h3 h4
  show ?thesis by simp
qed

section \<open>Where the code departs from its description\<close>

text \<open>
  C2: the option \<^verbatim>\<open>ignoreDragging: { distance: 10 }\<close> is documented as "the distance in
  pixels the user should be able to drag without triggering the event", but the
  \<^verbatim>\<open>pointermove\<close> listener compares with the constant 4 and never reads \<^verbatim>\<open>distance\<close>. The
  pointer goes down on the button, moves 6 pixels (within the configured 10) and the click
  follows, outside the panel: the handler is not called.
\<close>

theorem drag_distance_option_not_read:
  "calls (run browser
     [Install page 0 7 (no_options\<lparr>opt_ignoreDragging := Some (DragOptions (Some 10))\<rparr>),
      Dispatch page 0 (pointer Pointerdown [2, 10, 0] 0 40 40),
      Dispatch page 0 (pointer Pointermove [2, 10, 0] 0 46 40),
      Dispatch page 0 (pointer Click [2, 10, 0] 1 46 40)] fresh_process) = []"
  by (simp add: model_defs scenario_defs)

text \<open>
  C3: \<^verbatim>\<open>stop\<close> runs the stop functions collected in \<^verbatim>\<open>cleanup\<close> (click, pointerdown, blur);
  the \<^verbatim>\<open>pointermove\<close> listener that \<^verbatim>\<open>startDragListener\<close> registered is not among them, and
  \<^verbatim>\<open>stop\<close> does not call \<^verbatim>\<open>stopDragListener\<close>. With dragging suppression on, the pointer
  goes down on the button and the stop function is called: the detector's
  \<^verbatim>\<open>pointermove\<close> listener is still registered.
\<close>

theorem stop_leaves_drag_listener:
  "map reg_cb (registry (run browser
     [Install page 0 7 (no_options\<lparr>opt_ignoreDragging := Some (DragFlag True)\<rparr>),
      Dispatch page 0 (pointer Pointerdown [2, 10, 0] 0 40 40),
      CallStop (fst (onClickOutside browser page 0 7
                  (no_options\<lparr>opt_ignoreDragging := Some (DragFlag True)\<rparr>) fresh_process))]
     fresh_process)) = [DragListener 0 40 40]"
  by (simp add: model_defs scenario_defs)

text \<open>
  C6: \<^verbatim>\<open>startDragListener\<close> overwrites \<^verbatim>\<open>stopDragListener\<close> without calling the previous one.
  With dragging suppression on, the pointer goes down on the button twice with no click
  in between: two \<^verbatim>\<open>pointermove\<close> listeners of the same detector are registered.
\<close>

theorem second_pointerdown_second_drag_listener:
  "map reg_cb (filter (\<lambda>r. reg_type r = Pointermove) (registry (run browser
     [Install page 0 7 (no_options\<lparr>opt_ignoreDragging := Some (DragFlag True)\<rparr>),
      Dispatch page 0 (pointer Pointerdown [2, 10, 0] 0 40 40),
      Dispatch page 0 (pointer Pointerdown [2, 10, 0] 0 41 41)]
     fresh_process))) = [DragListener 0 40 40, DragListener 0 41 41]"
  by (simp add: model_defs scenario_defs)

end
